theory Spec2Isabelle
  imports Main "HOL-Library.Sublist"
begin

section \<open>Python strings\<close>

text \<open>
  A Python \<open>str\<close> is a \<^typ>\<open>string\<close>, one \<^typ>\<open>char\<close> for each character of the text.
  The character classes (whitespace, letters and their case, word characters, line ends)
  are those of ASCII, so the model covers text whose characters are ASCII.
\<close>

definition whitespace :: "char list" where
  "whitespace = [CHR 0x09, CHR 0x0A, CHR 0x0B, CHR 0x0C, CHR 0x0D,
                 CHR 0x1C, CHR 0x1D, CHR 0x1E, CHR 0x1F, CHR '' '']"

definition isspace :: "char \<Rightarrow> bool" where
  "isspace c = (c \<in> set whitespace)"

text \<open>\<open>s.strip()\<close> and \<open>s.strip(chars)\<close>.\<close>

definition strip :: "string \<Rightarrow> string" where
  "strip s = rev (dropWhile isspace (rev (dropWhile isspace s)))"

definition strip_chars :: "string \<Rightarrow> string \<Rightarrow> string" where
  "strip_chars chars s =
     rev (dropWhile (\<lambda>c. c \<in> set chars) (rev (dropWhile (\<lambda>c. c \<in> set chars) s)))"

text \<open>\<open>s.startswith(p)\<close>.\<close>

definition startswith :: "string \<Rightarrow> string \<Rightarrow> bool" where
  "startswith s p = (take (length p) s = p)"

text \<open>\<open>s.split(sep)[0]\<close> for a separator of one character: the text before its first
  occurrence, the whole string when it does not occur.\<close>

definition split_first :: "char \<Rightarrow> string \<Rightarrow> string" where
  "split_first sep s = takeWhile (\<lambda>c. c \<noteq> sep) s"

text \<open>\<open>s.replace(old, new)\<close>: every occurrence of \<open>old\<close>, left to right, not overlapping.\<close>

function replace :: "string \<Rightarrow> string \<Rightarrow> string \<Rightarrow> string" where
  "replace old new s =
     (if old = [] then new @ concat (map (\<lambda>c. c # new) s)
      else if s = [] then []
      else if take (length old) s = old then new @ replace old new (drop (length old) s)
      else hd s # replace old new (tl s))"
  by pat_completeness auto
termination
  by (relation "measure (\<lambda>(old, new, s). length s)") (auto simp: less_Suc_eq_0_disj)

text \<open>\<open>str(n)\<close> for a non-negative integer.\<close>

definition digit :: "nat \<Rightarrow> char" where
  "digit d = ''0123456789'' ! d"

fun str_nat :: "nat \<Rightarrow> string" where
  "str_nat n = (if n < 10 then [digit n] else str_nat (n div 10) @ [digit (n mod 10)])"

section \<open>The structural extractor\<close>

text \<open>
  \<open>CodebaseScanner.extract_code_elements\<close> (agent.py): the loop over
  \<open>enumerate(lines[:100], 1)\<close> is a left fold; the three result lists are the accumulator.
\<close>

type_synonym code_elements = "string list \<times> string list \<times> string list"

definition class_entry :: "string \<Rightarrow> nat \<Rightarrow> string" where
  "class_entry class_name i = ''  - '' @ class_name @ '' (line '' @ str_nat i @ '')''"

definition function_entry :: "string \<Rightarrow> nat \<Rightarrow> string" where
  "function_entry func_name i = ''  - '' @ func_name @ ''() (line '' @ str_nat i @ '')''"

definition class_name_of :: "string \<Rightarrow> string" where
  "class_name_of stripped =
     strip_chars '':'' (replace ''class '' '''' (split_first CHR ''('' stripped))"

definition func_name_of :: "string \<Rightarrow> string" where
  "func_name_of stripped = strip (replace ''def '' '''' (split_first CHR ''('' stripped))"

definition extract_line :: "code_elements \<Rightarrow> nat \<times> string \<Rightarrow> code_elements" where
  "extract_line acc il =
     (case acc of (classes, functions, imports) \<Rightarrow>
      case il of (i, line) \<Rightarrow>
        let stripped = strip line in
        if startswith stripped ''class '' then
          (classes @ [class_entry (class_name_of stripped) i], functions, imports)
        else if startswith stripped ''def '' then
          (if \<not> startswith (func_name_of stripped) ''_''
           then (classes, functions @ [function_entry (func_name_of stripped) i], imports)
           else (classes, functions, imports))
        else if startswith stripped ''import '' \<or> startswith stripped ''from '' then
          (classes, functions, imports @ [stripped])
        else (classes, functions, imports))"

definition extract_code_elements :: "string list \<Rightarrow> code_elements" where
  "extract_code_elements lines = foldl extract_line ([], [], []) (enumerate 1 (take 100 lines))"

section \<open>More of Python's string operations\<close>

definition upper_letters :: string where
  "upper_letters = ''ABCDEFGHIJKLMNOPQRSTUVWXYZ''"

definition lower_letters :: string where
  "lower_letters = ''abcdefghijklmnopqrstuvwxyz''"

definition lower_char :: "char \<Rightarrow> char" where
  "lower_char c = (case map_of (zip upper_letters lower_letters) c of None \<Rightarrow> c | Some d \<Rightarrow> d)"

definition upper_char :: "char \<Rightarrow> char" where
  "upper_char c = (case map_of (zip lower_letters upper_letters) c of None \<Rightarrow> c | Some d \<Rightarrow> d)"

text \<open>\<open>s.lower()\<close> and \<open>s.upper()\<close>.\<close>

definition lower :: "string \<Rightarrow> string" where
  "lower s = map lower_char s"

definition upper :: "string \<Rightarrow> string" where
  "upper s = map upper_char s"

text \<open>\<open>s.split()\<close>: the maximal runs of characters that are not whitespace. The first
  argument is the word read so far.\<close>

fun split_acc :: "string \<Rightarrow> string \<Rightarrow> string list" where
  "split_acc w [] = (if w = [] then [] else [w])"
| "split_acc w (c # cs) =
     (if isspace c then (if w = [] then split_acc [] cs else w # split_acc [] cs)
      else split_acc (w @ [c]) cs)"

definition split :: "string \<Rightarrow> string list" where
  "split s = split_acc [] s"

text \<open>\<open>s.splitlines()\<close>: a line ends at \<open>\n\<close>, \<open>\r\<close>, \<open>\r\n\<close>, \<open>\v\<close>, \<open>\f\<close>, \<open>\x1c\<close>, \<open>\x1d\<close>
  or \<open>\x1e\<close>; the line ends are dropped and no empty last line is made.\<close>

definition linebreaks :: "char list" where
  "linebreaks = [CHR 0x0A, CHR 0x0D, CHR 0x0B, CHR 0x0C, CHR 0x1C, CHR 0x1D, CHR 0x1E]"

fun splitlines_acc :: "string \<Rightarrow> string \<Rightarrow> string list" where
  "splitlines_acc cur [] = (if cur = [] then [] else [cur])"
| "splitlines_acc cur [c] = (if c \<in> set linebreaks then [cur] else [cur @ [c]])"
| "splitlines_acc cur (c # d # cs) =
     (if c = CHR 0x0D \<and> d = CHR 0x0A then cur # splitlines_acc [] cs
      else if c \<in> set linebreaks then cur # splitlines_acc [] (d # cs)
      else splitlines_acc (cur @ [c]) (d # cs))"

definition splitlines :: "string \<Rightarrow> string list" where
  "splitlines s = splitlines_acc [] s"

text \<open>\<open>sep.join(xs)\<close>.\<close>

fun join :: "string \<Rightarrow> string list \<Rightarrow> string" where
  "join sep [] = []"
| "join sep [x] = x"
| "join sep (x # y # ys) = x @ sep @ join sep (y # ys)"

text \<open>\<open>str(i)\<close> for an integer, and the format \<open>{i:4d}\<close>: at least four characters, padded
  with spaces on the left.\<close>

definition str_int :: "int \<Rightarrow> string" where
  "str_int i = (if i < 0 then CHR ''-'' # str_nat (nat (- i)) else str_nat (nat i))"

definition format_4d :: "int \<Rightarrow> string" where
  "format_4d i = replicate (4 - length (str_int i)) CHR '' '' @ str_int i"

text \<open>A slice \<open>xs[i:j]\<close>: a negative index counts from the end, and both indices are
  clamped to the list.\<close>

definition slice_index :: "nat \<Rightarrow> int \<Rightarrow> nat" where
  "slice_index n i = (if i < 0 then nat (max 0 (int n + i)) else min n (nat i))"

definition slice :: "'a list \<Rightarrow> int \<Rightarrow> int \<Rightarrow> 'a list" where
  "slice xs i j = take (slice_index (length xs) j - slice_index (length xs) i)
                    (drop (slice_index (length xs) i) xs)"

text \<open>\<open>sorted(xs, reverse=True, key=key)\<close> and \<open>xs.sort(reverse=True, key=key)\<close>: Python's
  sort is stable, and with \<open>reverse=True\<close> elements of equal key keep their original
  order, so the result is the stable sort by descending key. Keys are exact numbers.\<close>

definition sorted_reverse :: "('a \<Rightarrow> 's::linordered_idom) \<Rightarrow> 'a list \<Rightarrow> 'a list" where
  "sorted_reverse key xs = sort_key (\<lambda>x. - key x) xs"

section \<open>Files\<close>

text \<open>
  What a file holds is a sequence of items: a character that decodes as UTF-8, or a run
  of bytes that does not. \<open>read_text(encoding="utf-8", errors="ignore")\<close> drops the runs that
  do not decode, and reading in text mode turns \<open>\r\n\<close> and \<open>\r\<close> into \<open>\n\<close>.
\<close>

datatype item = Chr char | Undecodable

type_synonym file_data = "item list"

fun decode_ignore :: "file_data \<Rightarrow> string" where
  "decode_ignore [] = []"
| "decode_ignore (Chr c # ds) = c # decode_ignore ds"
| "decode_ignore (Undecodable # ds) = decode_ignore ds"

fun universal_newlines :: "string \<Rightarrow> string" where
  "universal_newlines [] = []"
| "universal_newlines [c] = (if c = CHR 0x0D then [CHR 0x0A] else [c])"
| "universal_newlines (c # d # cs) =
     (if c = CHR 0x0D \<and> d = CHR 0x0A then CHR 0x0A # universal_newlines cs
      else if c = CHR 0x0D then CHR 0x0A # universal_newlines (d # cs)
      else c # universal_newlines (d # cs))"

text \<open>
  The file system is a tree; a directory lists its entries in the order in which the
  operating system enumerates them. Symbolic links and permissions are not modelled.
\<close>

datatype node = File file_data | Dir "(string \<times> node) list"

datatype py_error =
  FileNotFoundError | NotADirectoryError | IsADirectoryError | ValueError | RuntimeError
  | AttributeError

text \<open>A \<open>pathlib.Path\<close> (POSIX): whether it is absolute, and its parts.\<close>

datatype ppath = Path (absolute: bool) (parts: "string list")

text \<open>The environment of the process: the tree, the working directory (the parts of an
  absolute path) and the home directories by user name (\<open>''''\<close> for the current user).\<close>

record env =
  tree :: node
  cwd :: "string list"
  homes :: "(string \<times> string list) list"

text \<open>\<open>s.split(sep)\<close> for a separator of one character.\<close>

fun split_on_acc :: "char \<Rightarrow> string \<Rightarrow> string \<Rightarrow> string list" where
  "split_on_acc sep cur [] = [cur]"
| "split_on_acc sep cur (c # cs) =
     (if c = sep then cur # split_on_acc sep [] cs else split_on_acc sep (cur @ [c]) cs)"

definition split_on :: "char \<Rightarrow> string \<Rightarrow> string list" where
  "split_on sep s = split_on_acc sep [] s"

text \<open>\<open>Path(s)\<close>: empty parts and \<open>.\<close> are dropped, \<open>..\<close> is kept.\<close>

definition parse_path :: "string \<Rightarrow> ppath" where
  "parse_path s = Path (startswith s ''/'')
                       (filter (\<lambda>p. p \<noteq> [] \<and> p \<noteq> ''.'') (split_on CHR ''/'' s))"

text \<open>\<open>p / s\<close>: an absolute \<open>s\<close> replaces \<open>p\<close>.\<close>

definition join_path :: "ppath \<Rightarrow> string \<Rightarrow> ppath" where
  "join_path p s =
     (let q = parse_path s in
      if absolute q then q else Path (absolute p) (parts p @ parts q))"

text \<open>\<open>str(p)\<close>.\<close>

definition str_path :: "ppath \<Rightarrow> string" where
  "str_path p =
     (if absolute p then ''/'' @ join ''/'' (parts p)
      else if parts p = [] then ''.'' else join ''/'' (parts p))"

text \<open>\<open>p.name\<close> and \<open>p.suffix\<close>: the suffix starts at the last dot of the name, when that
  dot is neither the first nor the last character of the name.\<close>

definition name :: "ppath \<Rightarrow> string" where
  "name p = (if parts p = [] then [] else last (parts p))"

definition suffix_of_name :: "string \<Rightarrow> string" where
  "suffix_of_name n =
     (let ext = rev (takeWhile (\<lambda>c. c \<noteq> CHR ''.'') (rev n)) in
      if CHR ''.'' \<in> set n \<and> ext \<noteq> [] \<and> length ext + 1 < length n then CHR ''.'' # ext
      else [])"

definition suffix :: "ppath \<Rightarrow> string" where
  "suffix p = suffix_of_name (name p)"

text \<open>\<open>p.relative_to(base)\<close> raises \<open>ValueError\<close> when \<open>p\<close> is not under \<open>base\<close>.\<close>

definition relative_to :: "ppath \<Rightarrow> ppath \<Rightarrow> py_error + ppath" where
  "relative_to p base =
     (if absolute p = absolute base \<and> take (length (parts base)) (parts p) = parts base
      then Inr (Path False (drop (length (parts base)) (parts p)))
      else Inl ValueError)"

text \<open>Looking a path up, part by part, as the operating system does; the first argument
  is the directory reached and its ancestors. \<open>..\<close> of the root is the root.\<close>

fun walk :: "node list \<Rightarrow> string list \<Rightarrow> py_error + node" where
  "walk [] ps = Inl FileNotFoundError"
| "walk (cur # anc) [] = Inr cur"
| "walk (cur # anc) (p # ps) =
     (case cur of
        File d \<Rightarrow> Inl NotADirectoryError
      | Dir es \<Rightarrow>
          if p = ''..'' then walk (if anc = [] then [cur] else anc) ps
          else (case map_of es p of
                  None \<Rightarrow> Inl FileNotFoundError
                | Some n \<Rightarrow> walk (n # cur # anc) ps))"

definition node_at :: "env \<Rightarrow> ppath \<Rightarrow> py_error + node" where
  "node_at e p = walk [tree e] (if absolute p then parts p else cwd e @ parts p)"

definition exists :: "env \<Rightarrow> ppath \<Rightarrow> bool" where
  "exists e p = (case node_at e p of Inl x \<Rightarrow> False | Inr n \<Rightarrow> True)"

definition is_dir :: "env \<Rightarrow> ppath \<Rightarrow> bool" where
  "is_dir e p = (case node_at e p of Inr (Dir es) \<Rightarrow> True | _ \<Rightarrow> False)"

definition is_file :: "env \<Rightarrow> ppath \<Rightarrow> bool" where
  "is_file e p = (case node_at e p of Inr (File d) \<Rightarrow> True | _ \<Rightarrow> False)"

text \<open>\<open>p.read_text(encoding="utf-8", errors="ignore")\<close>.\<close>

definition read_text :: "env \<Rightarrow> ppath \<Rightarrow> py_error + string" where
  "read_text e p =
     (case node_at e p of
        Inl x \<Rightarrow> Inl x
      | Inr (Dir es) \<Rightarrow> Inl IsADirectoryError
      | Inr (File d) \<Rightarrow> Inr (universal_newlines (decode_ignore d)))"

text \<open>\<open>p.rglob("*")\<close>: every entry below the directory, the entries of a directory before
  those of its subdirectories.\<close>

fun rglob_rel :: "node \<Rightarrow> string list list" where
  "rglob_rel (File d) = []"
| "rglob_rel (Dir es) =
     map (\<lambda>e. [fst e]) es @ concat (map (\<lambda>e. map ((#) (fst e)) (rglob_rel (snd e))) es)"

definition rglob :: "env \<Rightarrow> ppath \<Rightarrow> ppath list" where
  "rglob e p =
     (case node_at e p of
        Inl x \<Rightarrow> []
      | Inr n \<Rightarrow> map (\<lambda>rel. Path (absolute p) (parts p @ rel)) (rglob_rel n))"

text \<open>\<open>p.expanduser()\<close> raises \<open>RuntimeError\<close> when the home directory is not known;
  \<open>p.resolve()\<close> makes the path absolute and removes \<open>..\<close>.\<close>

definition expanduser :: "env \<Rightarrow> ppath \<Rightarrow> py_error + ppath" where
  "expanduser e p =
     (if \<not> absolute p \<and> parts p \<noteq> [] \<and> startswith (hd (parts p)) ''~'' then
        (case map_of (homes e) (tl (hd (parts p))) of
           None \<Rightarrow> Inl RuntimeError
         | Some h \<Rightarrow> Inr (Path True (h @ tl (parts p))))
      else Inr p)"

definition normalise :: "string list \<Rightarrow> string list" where
  "normalise ps = foldl (\<lambda>acc p. if p = ''..'' then butlast acc else acc @ [p]) [] ps"

definition resolve :: "env \<Rightarrow> ppath \<Rightarrow> ppath" where
  "resolve e p = Path True (normalise (if absolute p then parts p else cwd e @ parts p))"

section \<open>The codebase scanner\<close>

text \<open>
  \<open>fuzzy_match\<close> and \<open>highlight_match\<close> come from the library \<open>connectonion.tui\<close> and are
  parameters here. The scanner reads a result of \<open>fuzzy_match\<close> as
  \<open>result[1] if isinstance(result, tuple) and len(result) >= 2 else result\<close>: a result is a
  bare score, or a tuple of two components or more whose component 1 is the score.
  Scores are exact numbers of an ordered ring; floating-point rounding is not modelled.
\<close>

datatype 's fuzzy_result = Scalar 's | Tuple 's

fun score_of :: "'s fuzzy_result \<Rightarrow> 's" where
  "score_of (Scalar s) = s"
| "score_of (Tuple s) = s"

type_synonym 's matcher = "string \<Rightarrow> string \<Rightarrow> 's fuzzy_result"

definition CODE_EXTENSIONS :: "string list" where
  "CODE_EXTENSIONS = [''.py'', ''.js'', ''.ts'', ''.tsx'', ''.jsx'', ''.rs'', ''.go'', ''.java'',
                      ''.cpp'', ''.c'', ''.h'', ''.hpp'']"

definition quote :: string where
  "quote = [CHR 0x27]"

definition nl :: string where
  "nl = [CHR 0x0A]"

text \<open>An optional string argument counts as absent when it is \<open>None\<close> or empty.\<close>

fun value_of :: "string option \<Rightarrow> string" where
  "value_of None = []"
| "value_of (Some s) = s"

text \<open>\<open>resolve_target_dir\<close>; \<open>codebase_root\<close> is the field of the scanner.\<close>

definition resolve_target_dir ::
  "env \<Rightarrow> ppath \<Rightarrow> string option \<Rightarrow> string option \<Rightarrow> py_error + ppath option" where
  "resolve_target_dir e codebase_root repo_name folder_path =
     (if value_of folder_path \<noteq> [] then
        (case expanduser e (parse_path (value_of folder_path)) of
           Inl x \<Rightarrow> Inl x
         | Inr p \<Rightarrow>
             (let path = resolve e p in
              if exists e path \<and> is_dir e path then Inr (Some path) else Inr None))
      else if value_of repo_name \<noteq> [] then
        (let target_dir = join_path codebase_root (value_of repo_name) in
         if exists e target_dir \<and> is_dir e target_dir then Inr (Some target_dir) else Inr None)
      else if exists e codebase_root \<and> is_dir e codebase_root then Inr (Some codebase_root)
      else Inr None)"

text \<open>\<open>get_code_files\<close>.\<close>

definition get_code_files :: "env \<Rightarrow> ppath \<Rightarrow> ppath list" where
  "get_code_files e directory =
     (if \<not> exists e directory \<or> \<not> is_dir e directory then []
      else filter (\<lambda>f. is_file e f \<and> suffix f \<in> set CODE_EXTENSIONS) (rglob e directory))"

text \<open>\<open>score_files_fuzzy\<close>: the loop over \<open>file_paths\<close>, then the sort.\<close>

fun score_paths ::
  "('s::linordered_idom) matcher \<Rightarrow> (string \<Rightarrow> string \<Rightarrow> string) \<Rightarrow> string \<Rightarrow> string list
   \<Rightarrow> ('s \<times> string \<times> string) list" where
  "score_paths fuzzy_match highlight_match query [] = []"
| "score_paths fuzzy_match highlight_match query (path # file_paths) =
     (let score = score_of (fuzzy_match (lower query) (lower path)) in
      if score > 0
      then (score, path, highlight_match path query)
           # score_paths fuzzy_match highlight_match query file_paths
      else score_paths fuzzy_match highlight_match query file_paths)"

definition score_files_fuzzy ::
  "('s::linordered_idom) matcher \<Rightarrow> (string \<Rightarrow> string \<Rightarrow> string) \<Rightarrow> string \<Rightarrow> string list
   \<Rightarrow> ('s \<times> string \<times> string) list" where
  "score_files_fuzzy fuzzy_match highlight_match query file_paths =
     sorted_reverse fst (score_paths fuzzy_match highlight_match query file_paths)"

text \<open>\<open>score_files_for_feature\<close>: the inner loop over the keywords adds to \<open>total_score\<close>
  and reads the file once for each keyword; the outer loop over the files appends to
  \<open>scored_files\<close>.\<close>

fun score_keywords ::
  "('s::linordered_idom) matcher \<Rightarrow> env \<Rightarrow> ppath \<Rightarrow> string \<Rightarrow> 's \<Rightarrow> string list \<Rightarrow> py_error + 's" where
  "score_keywords fuzzy_match e file_path rel_path total_score [] = Inr total_score"
| "score_keywords fuzzy_match e file_path rel_path total_score (keyword # keywords) =
     (let path_score = score_of (fuzzy_match keyword (lower rel_path));
          total1 = total_score + path_score * 3
      in case read_text e file_path of
           Inl x \<Rightarrow> Inl x
         | Inr text \<Rightarrow>
             (let content = lower (take 1000 text);
                  content_score = score_of (fuzzy_match keyword content)
              in score_keywords fuzzy_match e file_path rel_path
                   (total1 + content_score * 2) keywords))"

fun score_files ::
  "('s::linordered_idom) matcher \<Rightarrow> env \<Rightarrow> ppath \<Rightarrow> string list \<Rightarrow> ('s \<times> string) list \<Rightarrow> ppath list
   \<Rightarrow> py_error + ('s \<times> string) list" where
  "score_files fuzzy_match e target_dir keywords scored_files [] = Inr scored_files"
| "score_files fuzzy_match e target_dir keywords scored_files (file_path # code_files) =
     (case relative_to file_path target_dir of
        Inl x \<Rightarrow> Inl x
      | Inr rel \<Rightarrow>
          (let rel_path = str_path rel in
           case score_keywords fuzzy_match e file_path rel_path 0 keywords of
             Inl x \<Rightarrow> Inl x
           | Inr total_score \<Rightarrow>
               score_files fuzzy_match e target_dir keywords
                 (if total_score > 0 then scored_files @ [(total_score, rel_path)]
                  else scored_files)
                 code_files))"

definition score_files_for_feature ::
  "('s::linordered_idom) matcher \<Rightarrow> env \<Rightarrow> ppath list \<Rightarrow> ppath \<Rightarrow> string list
   \<Rightarrow> py_error + ('s \<times> string) list" where
  "score_files_for_feature fuzzy_match e code_files target_dir keywords =
     score_files fuzzy_match e target_dir keywords [] code_files"



text \<open>\<open>recommend_files\<close>. The list \<open>recommended\<close>, which the function formats, is
  \<open>recommend_files_ranked\<close>.\<close>

definition recommend_files_ranked ::
  "('s::linordered_idom) matcher \<Rightarrow> env \<Rightarrow> string \<Rightarrow> ppath list \<Rightarrow> ppath
   \<Rightarrow> py_error + ('s \<times> string) list" where
  "recommend_files_ranked fuzzy_match e feature_description code_files target_dir =
     (let keywords = split (lower feature_description) in
      case score_files_for_feature fuzzy_match e code_files target_dir keywords of
        Inl x \<Rightarrow> Inl x
      | Inr scored_files \<Rightarrow> Inr (take 5 (sorted_reverse fst scored_files)))"

definition not_found_identifier :: "string option \<Rightarrow> string option \<Rightarrow> string" where
  "not_found_identifier repo_name folder_path =
     (if value_of folder_path \<noteq> [] then value_of folder_path
      else if value_of repo_name \<noteq> [] then value_of repo_name else ''directory'')"

definition folder_not_found :: "string \<Rightarrow> string" where
  "folder_not_found identifier =
     ''Folder/repository '' @ quote @ identifier @ quote @ '' not found.''"


text \<open>\<open>format_file_explanation\<close>.\<close>

definition format_file_explanation ::
  "string \<Rightarrow> ppath \<Rightarrow> string list \<Rightarrow> string list \<Rightarrow> string list \<Rightarrow> string list \<Rightarrow> string" where
  "format_file_explanation file_path full_path lines classes functions imports =
     join nl
       ([file_path, replicate 60 CHR ''='',
         ''Lines: '' @ str_nat (length lines) @ '' | Extension: '' @ suffix full_path, '''']
        @ (if imports \<noteq> [] then
             [''Imports:''] @ map (\<lambda>imp. ''  - '' @ imp) (take 8 imports) @ ['''']
           else [])
        @ (if classes \<noteq> [] then [''Classes:''] @ take 5 classes @ [''''] else [])
        @ (if functions \<noteq> [] then [''Functions:''] @ take 8 functions @ [''''] else [])
        @ [''Preview (first 25 lines):'', replicate 60 CHR ''-'', join nl (take 25 lines)]
        @ (if length lines > 25
           then [nl @ ''... ('' @ str_nat (length lines - 25) @ '' more lines)'']
           else []))"

text \<open>\<open>explain_file\<close>.\<close>

definition explain_file ::
  "env \<Rightarrow> ppath \<Rightarrow> string \<Rightarrow> string option \<Rightarrow> string option \<Rightarrow> py_error + string" where
  "explain_file e codebase_root file_path repo_name folder_path =
     (case resolve_target_dir e codebase_root repo_name folder_path of
        Inl x \<Rightarrow> Inl x
      | Inr None \<Rightarrow> Inr (folder_not_found (not_found_identifier repo_name folder_path))
      | Inr (Some target_dir) \<Rightarrow>
          (let full_path = join_path target_dir file_path in
           if \<not> exists e full_path then
             Inr (''File '' @ file_path @ '' not found in '' @ quote
                  @ (if value_of folder_path \<noteq> [] then value_of folder_path
                     else if value_of repo_name \<noteq> [] then value_of repo_name
                     else str_path target_dir)
                  @ quote @ ''.'')
           else if \<not> is_file e full_path then Inr (file_path @ '' is not a file.'')
           else
             (case read_text e full_path of
                Inl x \<Rightarrow> Inl x
              | Inr content \<Rightarrow>
                  (let lines = splitlines content in
                   case extract_code_elements lines of
                     (classes, functions, imports) \<Rightarrow>
                       Inr (format_file_explanation file_path full_path lines classes
                              functions imports)))))"

text \<open>\<open>get_file_content\<close>. The window of lines it selects, with its two indices, is
  \<open>content_window\<close>.\<close>

definition content_window :: "string list \<Rightarrow> int \<Rightarrow> int \<Rightarrow> int \<times> int \<times> string list" where
  "content_window lines start_line num_lines =
     (let start_idx = max 0 (start_line - 1);
          end_idx = min (int (length lines)) (start_idx + num_lines)
      in (start_idx, end_idx, slice lines start_idx end_idx))"

fun numbered_lines :: "int \<Rightarrow> string list \<Rightarrow> string" where
  "numbered_lines i [] = []"
| "numbered_lines i (line # rest) =
     format_4d i @ '' | '' @ line @ nl @ numbered_lines (i + 1) rest"

definition get_file_content ::
  "env \<Rightarrow> ppath \<Rightarrow> string \<Rightarrow> string option \<Rightarrow> string option \<Rightarrow> int \<Rightarrow> int
   \<Rightarrow> py_error + string" where
  "get_file_content e codebase_root file_path repo_name folder_path start_line num_lines =
     (case resolve_target_dir e codebase_root repo_name folder_path of
        Inl x \<Rightarrow> Inl x
      | Inr None \<Rightarrow> Inr (folder_not_found (not_found_identifier repo_name folder_path))
      | Inr (Some target_dir) \<Rightarrow>
          (let full_path = join_path target_dir file_path in
           if \<not> exists e full_path then
             Inr (''File '' @ file_path @ '' not found in '' @ quote
                  @ not_found_identifier repo_name folder_path @ quote @ ''.'')
           else
             (case read_text e full_path of
                Inl x \<Rightarrow> Inl x
              | Inr content \<Rightarrow>
                  (let lines = splitlines content in
                   case content_window lines start_line num_lines of
                     (start_idx, end_idx, selected_lines) \<Rightarrow>
                       Inr (file_path @ '' (lines '' @ str_int start_line @ ''-''
                            @ str_int (start_idx + int (length selected_lines)) @ ''):'' @ nl
                            @ replicate 60 CHR ''='' @ nl
                            @ numbered_lines start_line selected_lines
                            @ (if end_idx < int (length lines)
                               then nl @ ''... ('' @ str_int (int (length lines) - end_idx)
                                    @ '' more lines)''
                               else []))))))"

section \<open>Errors of the operating system in the file enumerator\<close>

text \<open>
  \<open>Path.exists()\<close>, \<open>is_dir()\<close> and \<open>is_file()\<close> call \<open>os.stat\<close> and answer \<open>False\<close> only for the
  errors that say that the path is not there (\<open>ENOENT\<close>, \<open>ENOTDIR\<close>, \<open>EBADF\<close>, \<open>ELOOP\<close>); any
  other \<open>OSError\<close> is raised to the caller. The tree has no permissions, so the one such
  error here is \<open>ENAMETOOLONG\<close>: the lookup reaches a name longer than \<open>NAME_MAX\<close>. The
  lookup goes part by part, so a part that is missing, or a regular file in the place of
  a directory, is found before a later name is measured.
\<close>

definition NAME_MAX :: nat where
  "NAME_MAX = 255"

datatype os_error = ENAMETOOLONG

datatype stat_outcome = Found node | NotThere | Raised os_error

fun os_stat_walk :: "node list \<Rightarrow> string list \<Rightarrow> stat_outcome" where
  "os_stat_walk [] ps = NotThere"
| "os_stat_walk (cur # anc) [] = Found cur"
| "os_stat_walk (cur # anc) (p # ps) =
     (case cur of
        File d \<Rightarrow> NotThere
      | Dir es \<Rightarrow>
          if p = ''..'' then os_stat_walk (if anc = [] then [cur] else anc) ps
          else if length p > NAME_MAX then Raised ENAMETOOLONG
          else (case map_of es p of
                  None \<Rightarrow> NotThere
                | Some n \<Rightarrow> os_stat_walk (n # cur # anc) ps))"

definition os_stat :: "env \<Rightarrow> ppath \<Rightarrow> stat_outcome" where
  "os_stat e p = os_stat_walk [tree e] (if absolute p then parts p else cwd e @ parts p)"

definition exists_call :: "env \<Rightarrow> ppath \<Rightarrow> os_error + bool" where
  "exists_call e p =
     (case os_stat e p of Found n \<Rightarrow> Inr True | NotThere \<Rightarrow> Inr False | Raised x \<Rightarrow> Inl x)"






section \<open>Regular expressions\<close>

text \<open>
  The part of Python's \<open>re\<close> that the route patterns use, with \<open>re.IGNORECASE\<close> as all
  five patterns are compiled: literals, the dot, \<open>\s\<close>, character classes and their
  complements, \<open>*\<close> and \<open>+\<close> on one of these, \<open>\b\<close>, sequence, alternative and numbered
  groups. Matching is by backtracking: \<open>run r s\<close> lists the states in which \<open>r\<close> can end
  when started in \<open>s\<close>, in the order in which the engine tries them (the left alternative
  first, the longest repetition first), and a search takes the first of them at the
  leftmost start.
\<close>

datatype atom = Lit char | AnyChar | Space | OneOf "char list" | NoneOf "char list"

fun atom_accepts :: "atom \<Rightarrow> char \<Rightarrow> bool" where
  "atom_accepts (Lit a) c = (lower_char c = lower_char a)"
| "atom_accepts AnyChar c = (c \<noteq> CHR 0x0A)"
| "atom_accepts Space c = isspace c"
| "atom_accepts (OneOf cs) c = (lower_char c \<in> set (map lower_char cs))"
| "atom_accepts (NoneOf cs) c = (lower_char c \<notin> set (map lower_char cs))"

datatype regex =
  Atom atom | Star atom | Plus atom | WordBoundary | Empty
  | Cat regex regex | Alt regex regex | Group nat regex

text \<open>A state of the matcher: the character before the position, the text from the
  position on, the groups captured so far (the latest first) and \<open>lastindex\<close>.\<close>

datatype mstate =
  MState (m_prev: "char option") (m_rest: string) (m_groups: "(nat \<times> string) list")
    (m_lastindex: "nat option")

definition is_word :: "char \<Rightarrow> bool" where
  "is_word c = (c \<in> set (upper_letters @ lower_letters @ ''0123456789_''))"

fun is_word_opt :: "char option \<Rightarrow> bool" where
  "is_word_opt None = False"
| "is_word_opt (Some c) = is_word c"

fun next_char :: "string \<Rightarrow> char option" where
  "next_char [] = None"
| "next_char (c # cs) = Some c"

text \<open>A greedy repetition of an atom: the ends it can reach, the farthest first.\<close>

fun star :: "atom \<Rightarrow> char option \<Rightarrow> string \<Rightarrow> (char option \<times> string) list" where
  "star a p [] = [(p, [])]"
| "star a p (c # cs) = (if atom_accepts a c then star a (Some c) cs else []) @ [(p, c # cs)]"

fun run :: "regex \<Rightarrow> mstate \<Rightarrow> mstate list" where
  "run (Atom a) (MState p cs g l) =
     (case cs of
        [] \<Rightarrow> []
      | c # cs' \<Rightarrow> if atom_accepts a c then [MState (Some c) cs' g l] else [])"
| "run (Star a) (MState p cs g l) = map (\<lambda>pr. MState (fst pr) (snd pr) g l) (star a p cs)"
| "run (Plus a) (MState p cs g l) =
     (case cs of
        [] \<Rightarrow> []
      | c # cs' \<Rightarrow>
          if atom_accepts a c
          then map (\<lambda>pr. MState (fst pr) (snd pr) g l) (star a (Some c) cs')
          else [])"
| "run WordBoundary (MState p cs g l) =
     (if is_word_opt p \<noteq> is_word_opt (next_char cs) then [MState p cs g l] else [])"
| "run Empty s = [s]"
| "run (Cat r1 r2) s = concat (map (run r2) (run r1 s))"
| "run (Alt r1 r2) s = run r1 s @ run r2 s"
| "run (Group n r) s =
     map (\<lambda>s'. MState (m_prev s') (m_rest s')
                  ((n, take (length (m_rest s) - length (m_rest s')) (m_rest s)) # m_groups s')
                  (Some n))
       (run r s)"

text \<open>\<open>pattern.search(line)\<close>: the first way to match at the leftmost start that has one.\<close>

fun search_from :: "regex \<Rightarrow> char option \<Rightarrow> string \<Rightarrow> mstate option" where
  "search_from r p [] = (case run r (MState p [] [] None) of [] \<Rightarrow> None | s # ss \<Rightarrow> Some s)"
| "search_from r p (c # cs) =
     (case run r (MState p (c # cs) [] None) of
        [] \<Rightarrow> search_from r (Some c) cs
      | s # ss \<Rightarrow> Some s)"

definition search :: "regex \<Rightarrow> string \<Rightarrow> mstate option" where
  "search r line = search_from r None line"

text \<open>\<open>len(match.groups())\<close> is the number of groups of the pattern; \<open>match.group(i)\<close> is
  \<open>None\<close> for a group that took no part in the match.\<close>

fun ngroups :: "regex \<Rightarrow> nat" where
  "ngroups (Cat r1 r2) = ngroups r1 + ngroups r2"
| "ngroups (Alt r1 r2) = ngroups r1 + ngroups r2"
| "ngroups (Group n r) = Suc (ngroups r)"
| "ngroups r = 0"

definition match_group :: "mstate \<Rightarrow> nat \<Rightarrow> string option" where
  "match_group m i = map_of (m_groups m) i"

text \<open>Building patterns: a sequence, a literal text, alternatives of literal texts.\<close>

fun cat :: "regex list \<Rightarrow> regex" where
  "cat [] = Empty"
| "cat [r] = r"
| "cat (r # rs) = Cat r (cat rs)"

definition lit :: "string \<Rightarrow> regex" where
  "lit w = cat (map (\<lambda>c. Atom (Lit c)) w)"

fun alts :: "string list \<Rightarrow> regex" where
  "alts [] = Empty"
| "alts [w] = lit w"
| "alts (w # ws) = Alt (lit w) (alts ws)"

section \<open>The route extractor\<close>

text \<open>\<open>APIDocumentation\<close> (main_3.py): the five patterns of \<open>route_patterns\<close>, in order, and
  \<open>allowed_exts\<close>.\<close>

definition http_verbs :: "string list" where
  "http_verbs = [''get'', ''post'', ''put'', ''patch'', ''delete'', ''options'', ''head'']"

definition quote_chars :: "char list" where
  "quote_chars = [CHR 0x22, CHR 0x27]"

definition route_tail :: "nat \<Rightarrow> regex list" where
  "route_tail n = [Star Space, Atom (OneOf quote_chars), Group n (Plus (NoneOf quote_chars))]"

definition route_patterns :: "regex list" where
  "route_patterns =
     [cat ([lit ''@'', Group 1 (alts [''app'', ''api'', ''router'']), lit ''.'',
            Group 2 (alts http_verbs), lit ''(''] @ route_tail 3),
      cat ([lit ''@'', Star AnyChar, lit ''route(''] @ route_tail 1),
      cat ([WordBoundary, Group 1 (alts [''app'', ''router'']), lit ''.'',
            Group 2 (alts http_verbs), lit ''(''] @ route_tail 3),
      cat ([WordBoundary, lit ''path(''] @ route_tail 1),
      cat ([WordBoundary, lit ''re_path(''] @ route_tail 1)]"

definition allowed_exts :: "string list" where
  "allowed_exts = [''.py'', ''.js'', ''.ts'', ''.tsx'', ''.jsx'']"

text \<open>An entry is the dictionary with the keys \<open>method\<close>, \<open>path\<close>, \<open>file\<close> and \<open>line\<close>; the
  path is a group of the match (\<open>None\<close> when the group took no part).\<close>

datatype route_entry =
  RouteEntry (entry_method: string) (entry_path: "string option") (entry_file: string)
    (entry_line: string)

text \<open>The body of the loop for a pattern that matched. \<open>match.group(2).upper()\<close> raises
  \<open>AttributeError\<close> on \<open>None\<close>.\<close>

definition match_entry ::
  "ppath \<Rightarrow> ppath \<Rightarrow> string \<Rightarrow> regex \<Rightarrow> mstate \<Rightarrow> py_error + route_entry" where
  "match_entry file_path repo_root line pattern m =
     (case (if ngroups pattern = 3
            then (case match_group m 2 of
                    None \<Rightarrow> Inl AttributeError
                  | Some g2 \<Rightarrow> Inr (upper g2, match_group m 3))
            else Inr (''GET'', match_group m (case m_lastindex m of None \<Rightarrow> 1 | Some i \<Rightarrow> i))) of
        Inl x \<Rightarrow> Inl x
      | Inr (method, route) \<Rightarrow>
          (case relative_to file_path repo_root of
             Inl x \<Rightarrow> Inl x
           | Inr rel \<Rightarrow> Inr (RouteEntry method route (str_path rel) (take 200 (strip line)))))"

text \<open>The loop over the patterns for one line: the first pattern that matches makes the
  entry and ends the loop (\<open>break\<close>).\<close>

fun scan_line :: "regex list \<Rightarrow> ppath \<Rightarrow> ppath \<Rightarrow> string \<Rightarrow> py_error + route_entry list" where
  "scan_line [] file_path repo_root line = Inr []"
| "scan_line (pattern # patterns) file_path repo_root line =
     (case search pattern line of
        None \<Rightarrow> scan_line patterns file_path repo_root line
      | Some m \<Rightarrow>
          (case match_entry file_path repo_root line pattern m of
             Inl x \<Rightarrow> Inl x
           | Inr en \<Rightarrow> Inr [en]))"

text \<open>The loop over the lines of a file and the loop over the files; \<open>entries\<close> is the list
  that the code appends to.\<close>

fun scan_lines ::
  "regex list \<Rightarrow> ppath \<Rightarrow> ppath \<Rightarrow> route_entry list \<Rightarrow> string list
   \<Rightarrow> py_error + route_entry list" where
  "scan_lines patterns file_path repo_root entries [] = Inr entries"
| "scan_lines patterns file_path repo_root entries (line # lines) =
     (case scan_line patterns file_path repo_root line of
        Inl x \<Rightarrow> Inl x
      | Inr found \<Rightarrow> scan_lines patterns file_path repo_root (entries @ found) lines)"

fun scan_files ::
  "env \<Rightarrow> regex list \<Rightarrow> ppath \<Rightarrow> route_entry list \<Rightarrow> ppath list
   \<Rightarrow> py_error + route_entry list" where
  "scan_files e patterns repo_root entries [] = Inr entries"
| "scan_files e patterns repo_root entries (file_path # files) =
     (if \<not> is_file e file_path \<or> lower (suffix file_path) \<notin> set allowed_exts
      then scan_files e patterns repo_root entries files
      else (case read_text e file_path of
              Inl x \<Rightarrow> Inl x
            | Inr text \<Rightarrow>
                (case scan_lines patterns file_path repo_root entries (splitlines text) of
                   Inl x \<Rightarrow> Inl x
                 | Inr entries' \<Rightarrow> scan_files e patterns repo_root entries' files)))"

definition scan_api_endpoints :: "env \<Rightarrow> ppath \<Rightarrow> py_error + route_entry list" where
  "scan_api_endpoints e repo_root =
     (if \<not> exists e repo_root then Inr []
      else scan_files e route_patterns repo_root [] (rglob e repo_root))"

section \<open>The feature score as the specification words it\<close>

text \<open>
  The total score of a file for a list of keywords, as the specification states it: the
  sum over the keywords of the path match times 3 plus the content match times 2. The
  callers of the matcher normalise case, so the path and the first 1000 characters of the
  text are matched in lower case. \<open>spec_total_score\<close> is compared below with the loop of
  \<open>score_files_for_feature\<close>.
\<close>

definition spec_total_score :: "('s::linordered_idom) matcher \<Rightarrow> string list \<Rightarrow> string \<Rightarrow> string \<Rightarrow> 's" where
  "spec_total_score fuzzy_match keywords rel_path text =
     (\<Sum>keyword\<leftarrow>keywords.
        score_of (fuzzy_match keyword (lower rel_path)) * 3
        + score_of (fuzzy_match keyword (lower (take 1000 text))) * 2)"

text \<open>The path of a file relative to the target directory, as a string, and the text of a
  regular file (empty for a path that cannot be read).\<close>

definition rel_path_of :: "ppath \<Rightarrow> ppath \<Rightarrow> string" where
  "rel_path_of target_dir f = str_path (Path False (drop (length (parts target_dir)) (parts f)))"

definition text_of :: "env \<Rightarrow> ppath \<Rightarrow> string" where
  "text_of e f = (case read_text e f of Inl x \<Rightarrow> [] | Inr text \<Rightarrow> text)"

text \<open>The scored files in enumeration order: each file with its total score and relative
  path, the files whose total score is not positive left out.\<close>

definition scored_in_order ::
  "('s::linordered_idom) matcher \<Rightarrow> env \<Rightarrow> ppath \<Rightarrow> string list \<Rightarrow> ppath list
   \<Rightarrow> ('s \<times> string) list" where
  "scored_in_order fuzzy_match e target_dir keywords code_files =
     map (\<lambda>f. (spec_total_score fuzzy_match keywords (rel_path_of target_dir f) (text_of e f),
               rel_path_of target_dir f))
       (filter (\<lambda>f. 0 < spec_total_score fuzzy_match keywords (rel_path_of target_dir f)
                         (text_of e f))
          code_files)"

text \<open>An example matcher: 1 when the query is a subsequence of the candidate, else 0,
  given as the second component of a tuple.\<close>

fun is_subsequence :: "string \<Rightarrow> string \<Rightarrow> bool" where
  "is_subsequence [] cs = True"
| "is_subsequence (q # qs) [] = False"
| "is_subsequence (q # qs) (c # cs) =
     (if q = c then is_subsequence qs cs else is_subsequence (q # qs) cs)"

definition example_match :: "int matcher" where
  "example_match query candidate = Tuple (if is_subsequence query candidate then 1 else 0)"

definition example_highlight :: "string \<Rightarrow> string \<Rightarrow> string" where
  "example_highlight path query = path"


section \<open>Notions used to state the properties of the route extractor\<close>

text \<open>The groups that every match of a pattern captures.\<close>

fun sure_groups :: "regex \<Rightarrow> nat list" where
  "sure_groups (Group n r) = n # sure_groups r"
| "sure_groups (Cat r1 r2) = sure_groups r1 @ sure_groups r2"
| "sure_groups (Alt r1 r2) = filter (\<lambda>n. n \<in> set (sure_groups r2)) (sure_groups r1)"
| "sure_groups r = []"

text \<open>A pattern whose match always has the groups that the loop body reads: groups 2 and
  3 for a pattern of three groups, group 1 otherwise.\<close>

definition well_grouped :: "regex \<Rightarrow> bool" where
  "well_grouped p =
     (if ngroups p = 3 then 2 \<in> set (sure_groups p) \<and> 3 \<in> set (sure_groups p)
      else 1 \<in> set (sure_groups p))"

text \<open>The state of a match points, with \<open>lastindex\<close>, at a captured group.\<close>

definition lastindex_ok :: "mstate \<Rightarrow> bool" where
  "lastindex_ok s =
     (case m_lastindex s of None \<Rightarrow> True | Some n \<Rightarrow> n \<in> fst ` set (m_groups s))"

text \<open>A file lies lies_under a directory.\<close>

definition lies_under :: "ppath \<Rightarrow> ppath \<Rightarrow> bool" where
  "lies_under f d = (absolute f = absolute d \<and> prefix (parts d) (parts f))"

text \<open>The entries of one line, of one file and of a scan, where no error is raised.\<close>

definition line_entries :: "regex list \<Rightarrow> ppath \<Rightarrow> ppath \<Rightarrow> string \<Rightarrow> route_entry list" where
  "line_entries patterns file_path repo_root line =
     (case scan_line patterns file_path repo_root line of Inl x \<Rightarrow> [] | Inr found \<Rightarrow> found)"

definition file_entries :: "env \<Rightarrow> regex list \<Rightarrow> ppath \<Rightarrow> ppath \<Rightarrow> route_entry list" where
  "file_entries e patterns repo_root file_path =
     (if is_file e file_path \<and> lower (suffix file_path) \<in> set allowed_exts
      then concat (map (line_entries patterns file_path repo_root)
                     (splitlines (text_of e file_path)))
      else [])"

text \<open>The numbers, from 1, of the lines of a text on which a pattern of the list matches:
  what the specification calls the line number of an entry.\<close>

definition spec_line_numbers :: "regex list \<Rightarrow> string list \<Rightarrow> nat list" where
  "spec_line_numbers patterns lines =
     map fst (filter (\<lambda>il. list_ex (\<lambda>p. search p (snd il) \<noteq> None) patterns)
                (enumerate 1 lines))"

section \<open>An example environment\<close>

text \<open>
  A tree with one repository, \<open>repos/app\<close>: a source file in a subdirectory, a file whose
  first and last bytes do not decode, and a text file that is not code. The properties
  below are evaluated on it.
\<close>

definition example_env :: env where
  "example_env =
     \<lparr> tree = Dir [(''repos'', Dir [(''app'', Dir
         [(''src'', Dir [(''Login.py'',
              File (map Chr ''@app.get(\"/users/{id}\")\<newline>def login():\<newline>    pass\<newline>''))]),
          (''blob.py'', File (Undecodable # map Chr ''path(\"/upload\")'' @ [Undecodable])),
          (''notes.txt'', File (map Chr ''login''))])])],
       cwd = [],
       homes = [('''', [''home'', ''dev''])] \<rparr>"

definition example_root :: ppath where
  "example_root = Path False [''repos'']"

section \<open>Properties of the structural extractor\<close>

lemmas string_eval =
  whitespace_def isspace_def strip_def strip_chars_def startswith_def split_first_def digit_def

lemmas extract_eval =
  extract_code_elements_def extract_line_def class_entry_def function_entry_def
  class_name_of_def func_name_of_def enumerate_eq_zip

lemma set_strip: "set (strip s) \<subseteq> set s"
  unfolding strip_def
  by (metis (no_types, lifting) set_dropWhileD set_rev subsetI)

lemma set_strip_chars: "set (strip_chars cs s) \<subseteq> set s"
  unfolding strip_chars_def
  by (metis (no_types, lifting) set_dropWhileD set_rev subsetI)

lemma set_replace_nil: "old \<noteq> [] \<Longrightarrow> set (replace old [] s) \<subseteq> set s"
proof (induction old "[] :: string" s rule: replace.induct)
  case (1 old s)
  show ?case
  proof (cases "s = []")
    case True
    then show ?thesis using 1 by (subst replace.simps) simp
  next
    case False
    show ?thesis
    proof (cases "take (length old) s = old")
      case True
      have "set (replace old [] (drop (length old) s)) \<subseteq> set (drop (length old) s)"
        using 1 False True by simp
      also have "\<dots> \<subseteq> set s" by (rule set_drop_subset)
      finally show ?thesis using 1 False True by (subst replace.simps) simp
    next
      case F2: False
      have "set (replace old [] (tl s)) \<subseteq> set (tl s)"
        using 1 False F2 by simp
      then have "set (replace old [] (tl s)) \<subseteq> set s"
        using False by (metis list.set_sel(2) subset_eq)
      then show ?thesis using 1(3) False F2 by (subst replace.simps) (auto simp: hd_in_set)
    qed
  qed
qed

lemma paren_notin_split_first: "c \<notin> set (split_first c s)"
  unfolding split_first_def by (auto dest: set_takeWhileD)

lemma class_name_no_paren: "CHR ''('' \<notin> set (class_name_of s)"
  unfolding class_name_of_def
  using set_strip_chars set_replace_nil[of "''class ''"] paren_notin_split_first
  by (metis (no_types, opaque_lifting) list.distinct(1) subsetD)

lemma func_name_no_paren: "CHR ''('' \<notin> set (func_name_of s)"
  unfolding func_name_of_def
  using set_strip set_replace_nil[of "''def ''"] paren_notin_split_first
  by (metis (no_types, opaque_lifting) list.distinct(1) subsetD)

lemma extract_line_step:
  "extract_line (cs, fs, ims) (i, l) =
     (if startswith (strip l) ''class '' then
        (cs @ [class_entry (class_name_of (strip l)) i], fs, ims)
      else if startswith (strip l) ''def '' then
        (if \<not> startswith (func_name_of (strip l)) ''_''
         then (cs, fs @ [function_entry (func_name_of (strip l)) i], ims)
         else (cs, fs, ims))
      else if startswith (strip l) ''import '' \<or> startswith (strip l) ''from '' then
        (cs, fs, ims @ [strip l])
      else (cs, fs, ims))"
  by (simp add: extract_line_def Let_def)

lemma foldl_extract_classes:
  "e \<in> set (fst (foldl extract_line ([], [], []) xs)) \<Longrightarrow>
   \<exists>i l. (i, l) \<in> set xs \<and> startswith (strip l) ''class '' \<and> e = class_entry (class_name_of (strip l)) i"
proof (induction xs arbitrary: e rule: rev_induct)
  case Nil
  then show ?case by simp
next
  case (snoc x xs)
  obtain cs fs ims where acc: "foldl extract_line ([], [], []) xs = (cs, fs, ims)"
    by (cases "foldl extract_line ([], [], []) xs") auto
  obtain i l where x: "x = (i, l)" by (cases x) auto
  from snoc.prems have "e \<in> set (fst (extract_line (cs, fs, ims) (i, l)))"
    by (simp add: acc x)
  then have "e \<in> set cs \<or> (startswith (strip l) ''class '' \<and> e = class_entry (class_name_of (strip l)) i)"
    by (auto simp: extract_line_step split: if_splits)
  then show ?case
  proof
    assume "e \<in> set cs"
    then have "e \<in> set (fst (foldl extract_line ([], [], []) xs))" by (simp add: acc)
    from snoc.IH[OF this] show ?thesis by auto
  next
    assume "startswith (strip l) ''class '' \<and> e = class_entry (class_name_of (strip l)) i"
    then show ?thesis using x by auto
  qed
qed

lemma foldl_extract_functions:
  "e \<in> set (fst (snd (foldl extract_line ([], [], []) xs))) \<Longrightarrow>
   \<exists>i l. (i, l) \<in> set xs \<and> startswith (strip l) ''def '' \<and> e = function_entry (func_name_of (strip l)) i"
proof (induction xs arbitrary: e rule: rev_induct)
  case Nil
  then show ?case by simp
next
  case (snoc x xs)
  obtain cs fs ims where acc: "foldl extract_line ([], [], []) xs = (cs, fs, ims)"
    by (cases "foldl extract_line ([], [], []) xs") auto
  obtain i l where x: "x = (i, l)" by (cases x) auto
  from snoc.prems have "e \<in> set (fst (snd (extract_line (cs, fs, ims) (i, l))))"
    by (simp add: acc x)
  then have "e \<in> set fs \<or> (startswith (strip l) ''def '' \<and> e = function_entry (func_name_of (strip l)) i)"
    by (auto simp: extract_line_step split: if_splits)
  then show ?case
  proof
    assume "e \<in> set fs"
    then have "e \<in> set (fst (snd (foldl extract_line ([], [], []) xs)))" by (simp add: acc)
    from snoc.IH[OF this] show ?thesis by auto
  next
    assume "startswith (strip l) ''def '' \<and> e = function_entry (func_name_of (strip l)) i"
    then show ?thesis using x by auto
  qed
qed

lemma foldl_extract_imports:
  "e \<in> set (snd (snd (foldl extract_line ([], [], []) xs))) \<Longrightarrow>
   \<exists>i l. (i, l) \<in> set xs \<and> e = strip l"
proof (induction xs arbitrary: e rule: rev_induct)
  case Nil
  then show ?case by simp
next
  case (snoc x xs)
  obtain cs fs ims where acc: "foldl extract_line ([], [], []) xs = (cs, fs, ims)"
    by (cases "foldl extract_line ([], [], []) xs") auto
  obtain i l where x: "x = (i, l)" by (cases x) auto
  from snoc.prems have "e \<in> set (snd (snd (extract_line (cs, fs, ims) (i, l))))"
    by (simp add: acc x)
  then have "e \<in> set ims \<or> e = strip l"
    by (auto simp: extract_line_step split: if_splits)
  then show ?case
  proof
    assume "e \<in> set ims"
    then have "e \<in> set (snd (snd (foldl extract_line ([], [], []) xs)))" by (simp add: acc)
    from snoc.IH[OF this] show ?thesis by auto
  next
    assume "e = strip l"
    then show ?thesis using x by auto
  qed
qed

lemma enumerate_take_100:
  "(i, l) \<in> set (enumerate 1 (take 100 lines)) \<Longrightarrow>
   1 \<le> i \<and> i \<le> 100 \<and> i \<le> length lines \<and> l = lines ! (i - 1)"
  by (auto simp: in_set_enumerate_eq)

lemma pass_lines: "foldl extract_line acc (zip ns (replicate n ''pass'')) = acc"
proof (induction n arbitrary: ns acc)
  case 0 then show ?case by simp
next
  case (Suc n)
  show ?case
  proof (cases ns)
    case Nil then show ?thesis by simp
  next
    case (Cons m ms)
    have "extract_line acc (m, ''pass'') = acc"
      by (cases acc) (simp add: extract_line_def string_eval)
    then show ?thesis using Suc Cons by simp
  qed
qed

text \<open>
  C4. The extractor reads the first 100 lines only: the result is that of the first 100
  lines, lines after the first 100 change nothing, and every reported class or function
  carries a line number between 1 and 100 that is the number of a line with that
  declaration (the name holds no parenthesis, so the number is the one in the entry);
  every reported import is the stripped text of one of the first 100 lines.
\<close>

theorem extract_code_elements_first_100:
  "extract_code_elements lines = extract_code_elements (take 100 lines)
   \<and> (100 \<le> length pre \<longrightarrow> extract_code_elements (pre @ late) = extract_code_elements pre)
   \<and> (\<forall>e \<in> set (fst (extract_code_elements lines)).
         \<exists>i name. e = class_entry name i \<and> CHR ''('' \<notin> set name \<and> 1 \<le> i \<and> i \<le> 100
           \<and> i \<le> length lines \<and> startswith (strip (lines ! (i - 1))) ''class '')
   \<and> (\<forall>e \<in> set (fst (snd (extract_code_elements lines))).
         \<exists>i name. e = function_entry name i \<and> CHR ''('' \<notin> set name \<and> 1 \<le> i \<and> i \<le> 100
           \<and> i \<le> length lines \<and> startswith (strip (lines ! (i - 1))) ''def '')
   \<and> (\<forall>e \<in> set (snd (snd (extract_code_elements lines))).
         \<exists>i. 1 \<le> i \<and> i \<le> 100 \<and> i \<le> length lines \<and> e = strip (lines ! (i - 1)))"
proof (intro conjI ballI impI)
  show "extract_code_elements lines = extract_code_elements (take 100 lines)"
    by (simp add: extract_code_elements_def)
next
  assume "100 \<le> length pre"
  then show "extract_code_elements (pre @ late) = extract_code_elements pre"
    by (simp add: extract_code_elements_def)
next
  fix e assume "e \<in> set (fst (extract_code_elements lines))"
  then obtain i l where il: "(i, l) \<in> set (enumerate 1 (take 100 lines))"
    and c: "startswith (strip l) ''class ''" and e: "e = class_entry (class_name_of (strip l)) i"
    unfolding extract_code_elements_def using foldl_extract_classes by blast
  from enumerate_take_100[OF il] c e class_name_no_paren
  show "\<exists>i name. e = class_entry name i \<and> CHR ''('' \<notin> set name \<and> 1 \<le> i \<and> i \<le> 100
           \<and> i \<le> length lines \<and> startswith (strip (lines ! (i - 1))) ''class ''"
    by blast
next
  fix e assume "e \<in> set (fst (snd (extract_code_elements lines)))"
  then obtain i l where il: "(i, l) \<in> set (enumerate 1 (take 100 lines))"
    and c: "startswith (strip l) ''def ''" and e: "e = function_entry (func_name_of (strip l)) i"
    unfolding extract_code_elements_def using foldl_extract_functions by blast
  from enumerate_take_100[OF il] c e func_name_no_paren
  show "\<exists>i name. e = function_entry name i \<and> CHR ''('' \<notin> set name \<and> 1 \<le> i \<and> i \<le> 100
           \<and> i \<le> length lines \<and> startswith (strip (lines ! (i - 1))) ''def ''"
    by blast
next
  fix e assume "e \<in> set (snd (snd (extract_code_elements lines)))"
  then obtain i l where il: "(i, l) \<in> set (enumerate 1 (take 100 lines))" and e: "e = strip l"
    unfolding extract_code_elements_def using foldl_extract_imports by blast
  from enumerate_take_100[OF il] e
  show "\<exists>i. 1 \<le> i \<and> i \<le> 100 \<and> i \<le> length lines \<and> e = strip (lines ! (i - 1))"
    by blast
qed

theorem extract_code_elements_first_100_witness:
  "100 \<le> length (replicate 149 ''pass'')
   \<and> extract_code_elements (replicate 149 ''pass'' @ [''class Late:'']) = ([], [], [])
   \<and> extract_code_elements [''class Late:''] = ([''  - Late (line 1)''], [], [])
   \<and> (\<exists>i name. ''  - Late (line 1)'' = class_entry name i \<and> CHR ''('' \<notin> set name \<and> 1 \<le> i
        \<and> i \<le> 100 \<and> i \<le> length [''class Late:'']
        \<and> startswith (strip ([''class Late:''] ! (i - 1))) ''class '')"
proof -
  have one: "extract_code_elements [''class Late:''] = ([''  - Late (line 1)''], [], [])"
    by (simp add: extract_eval string_eval upt_rec)
  have len: "100 \<le> length (replicate 149 ''pass'')" by simp
  have "extract_code_elements (replicate 149 ''pass'') = ([], [], [])"
    by (simp add: extract_code_elements_def enumerate_eq_zip pass_lines)
  with extract_code_elements_first_100[of "[''class Late:'']" "replicate 149 ''pass''" "[''class Late:'']"] len one
  show ?thesis by simp
qed

section \<open>Private functions\<close>

lemma startswith_hd: "startswith s (c # p) \<Longrightarrow> s \<noteq> [] \<and> hd s = c"
  by (cases s) (auto simp: startswith_def)

lemma def_not_class: "startswith s ''def '' \<Longrightarrow> \<not> startswith s ''class ''"
  using startswith_hd[of s "CHR ''d''" "''ef ''"] startswith_hd[of s "CHR ''c''" "''lass ''"]
  by auto

lemma private_def_line_skipped:
  assumes "startswith (strip l) ''def ''" and "startswith (func_name_of (strip l)) ''_''"
  shows "extract_line acc (i, l) = acc"
  using assms def_not_class[OF assms(1)] by (cases acc) (simp add: extract_line_step)

lemma blank_line_skipped: "extract_line acc (i, []) = acc"
  by (cases acc) (simp add: extract_line_step string_eval)

lemma foldl_extract_same:
  assumes "list_all2 (\<lambda>l l'. \<forall>acc i. extract_line acc (i, l) = extract_line acc (i, l')) ls ls'"
  shows "foldl extract_line acc (enumerate n ls) = foldl extract_line acc (enumerate n ls')"
  using assms
proof (induction arbitrary: acc n rule: list_all2_induct)
  case Nil
  then show ?case by simp
next
  case (Cons x xs y ys)
  have "extract_line acc (n, x) = extract_line acc (n, y)" using Cons.hyps(1) by blast
  then show ?case using Cons.IH[of "extract_line acc (n, y)" "Suc n"] by simp
qed

lemma foldl_extract_functions_eq:
  "fst (snd (foldl extract_line (cs, fs, ims) xs))
     = fs @ map (\<lambda>il. function_entry (func_name_of (strip (snd il))) (fst il))
              (filter (\<lambda>il. startswith (strip (snd il)) ''def ''
                           \<and> \<not> startswith (func_name_of (strip (snd il))) ''_'') xs)"
proof (induction xs arbitrary: cs fs ims)
  case Nil
  then show ?case by simp
next
  case (Cons x xs)
  obtain i l where x: "x = (i, l)" by (cases x) auto
  show ?case unfolding x using def_not_class[of "strip l"]
    by (auto simp: extract_line_step Cons.IH)
qed

lemma foldl_extract_classes_eq:
  "fst (foldl extract_line (cs, fs, ims) xs)
     = cs @ map (\<lambda>il. class_entry (class_name_of (strip (snd il))) (fst il))
              (filter (\<lambda>il. startswith (strip (snd il)) ''class '') xs)"
proof (induction xs arbitrary: cs fs ims)
  case Nil
  then show ?case by simp
next
  case (Cons x xs)
  obtain i l where x: "x = (i, l)" by (cases x) auto
  show ?case unfolding x by (auto simp: extract_line_step Cons.IH)
qed

lemma import_not_decl:
  "startswith s ''import '' \<or> startswith s ''from ''
   \<Longrightarrow> \<not> startswith s ''class '' \<and> \<not> startswith s ''def ''"
  using startswith_hd[of s "CHR ''d''" "''ef ''"] startswith_hd[of s "CHR ''c''" "''lass ''"]
    startswith_hd[of s "CHR ''i''" "''mport ''"] startswith_hd[of s "CHR ''f''" "''rom ''"]
  by auto

lemma foldl_extract_imports_eq:
  "snd (snd (foldl extract_line (cs, fs, ims) xs))
     = ims @ map (\<lambda>il. strip (snd il))
               (filter (\<lambda>il. startswith (strip (snd il)) ''import ''
                            \<or> startswith (strip (snd il)) ''from '') xs)"
proof (induction xs arbitrary: cs fs ims)
  case Nil
  then show ?case by simp
next
  case (Cons x xs)
  obtain i l where x: "x = (i, l)" by (cases x) auto
  show ?case unfolding x using import_not_decl[of "strip l"]
    by (auto simp: extract_line_step Cons.IH)
qed

text \<open>
  C6. The functions reported are exactly the lines, among the first 100, whose stripped
  text starts with \<open>def \<close> and whose name does not start with an underscore, each with its
  line number; the classes are exactly the lines that start with \<open>class \<close>, the imports
  those that start with \<open>import \<close> or \<open>from \<close>. A \<open>def\<close> line whose name starts with an
  underscore leaves the three lists as they are, and the result is the one obtained with
  an empty line in its place: the lines after it are scanned as before, under the same
  line numbers. On the five lines of the \<open>UserAuth\<close> example the result is the class
  \<open>UserAuth\<close> at line 1 and the function \<open>login\<close> at line 2.
\<close>

theorem extract_code_elements_private_functions:
  "fst (snd (extract_code_elements lines))
     = map (\<lambda>il. function_entry (func_name_of (strip (snd il))) (fst il))
         (filter (\<lambda>il. startswith (strip (snd il)) ''def ''
                      \<and> \<not> startswith (func_name_of (strip (snd il))) ''_'')
            (enumerate 1 (take 100 lines)))
   \<and> fst (extract_code_elements lines)
     = map (\<lambda>il. class_entry (class_name_of (strip (snd il))) (fst il))
         (filter (\<lambda>il. startswith (strip (snd il)) ''class '') (enumerate 1 (take 100 lines)))
   \<and> snd (snd (extract_code_elements lines))
     = map (\<lambda>il. strip (snd il))
         (filter (\<lambda>il. startswith (strip (snd il)) ''import ''
                      \<or> startswith (strip (snd il)) ''from '')
            (enumerate 1 (take 100 lines)))
   \<and> (startswith (strip l) ''def '' \<and> startswith (func_name_of (strip l)) ''_''
        \<longrightarrow> extract_line acc (i, l) = acc
          \<and> extract_code_elements (xs @ l # ys) = extract_code_elements (xs @ [] # ys))
   \<and> extract_code_elements
       [''class UserAuth:'', ''    def login(self):'', ''        pass'',
        ''    def _hash(self, pw):'', ''        pass'']
     = ([''  - UserAuth (line 1)''], [''  - login() (line 2)''], [])"
proof (intro conjI impI)
  show "fst (snd (extract_code_elements lines))
     = map (\<lambda>il. function_entry (func_name_of (strip (snd il))) (fst il))
         (filter (\<lambda>il. startswith (strip (snd il)) ''def ''
                      \<and> \<not> startswith (func_name_of (strip (snd il))) ''_'')
            (enumerate 1 (take 100 lines)))"
    unfolding extract_code_elements_def by (simp only: foldl_extract_functions_eq append_Nil)
  show "fst (extract_code_elements lines)
     = map (\<lambda>il. class_entry (class_name_of (strip (snd il))) (fst il))
         (filter (\<lambda>il. startswith (strip (snd il)) ''class '') (enumerate 1 (take 100 lines)))"
    unfolding extract_code_elements_def by (simp only: foldl_extract_classes_eq append_Nil)
  show "snd (snd (extract_code_elements lines))
     = map (\<lambda>il. strip (snd il))
         (filter (\<lambda>il. startswith (strip (snd il)) ''import ''
                      \<or> startswith (strip (snd il)) ''from '')
            (enumerate 1 (take 100 lines)))"
    unfolding extract_code_elements_def by (simp only: foldl_extract_imports_eq append_Nil)
  show "extract_code_elements
       [''class UserAuth:'', ''    def login(self):'', ''        pass'',
        ''    def _hash(self, pw):'', ''        pass'']
     = ([''  - UserAuth (line 1)''], [''  - login() (line 2)''], [])"
    by (simp add: extract_eval string_eval upt_rec)
next
  assume p: "startswith (strip l) ''def '' \<and> startswith (func_name_of (strip l)) ''_''"
  then show "extract_line acc (i, l) = acc" by (simp add: private_def_line_skipped)
  have same: "\<forall>acc i. extract_line acc (i, l) = extract_line acc (i, [])"
    using p by (simp add: private_def_line_skipped blank_line_skipped)
  have "list_all2 (\<lambda>l l'. \<forall>acc i. extract_line acc (i, l) = extract_line acc (i, l'))
          (xs @ l # ys) (xs @ [] # ys)"
    using same by (simp add: list_all2_appendI list_all2_refl)
  then have "list_all2 (\<lambda>l l'. \<forall>acc i. extract_line acc (i, l) = extract_line acc (i, l'))
          (take 100 (xs @ l # ys)) (take 100 (xs @ [] # ys))"
    by (rule list_all2_takeI)
  then show "extract_code_elements (xs @ l # ys) = extract_code_elements (xs @ [] # ys)"
    unfolding extract_code_elements_def by (rule foldl_extract_same)
qed

theorem extract_code_elements_private_functions_witness:
  "startswith (strip ''    def _hash(self, pw):'') ''def ''
   \<and> startswith (func_name_of (strip ''    def _hash(self, pw):'')) ''_''
   \<and> extract_code_elements
       [''class UserAuth:'', ''    def login(self):'', ''        pass'',
        ''    def _hash(self, pw):'', ''        pass'', ''    def logout(self):'']
     = ([''  - UserAuth (line 1)''], [''  - login() (line 2)'', ''  - logout() (line 6)''], [])"
proof -
  have a: "startswith (strip ''    def _hash(self, pw):'') ''def ''"
    by (simp add: string_eval)
  have b: "startswith (func_name_of (strip ''    def _hash(self, pw):'')) ''_''"
    by (simp add: func_name_of_def string_eval)
  have c: "extract_code_elements
       [''class UserAuth:'', ''    def login(self):'', ''        pass'',
        [], ''        pass'', ''    def logout(self):'']
     = ([''  - UserAuth (line 1)''], [''  - login() (line 2)'', ''  - logout() (line 6)''], [])"
    by (simp add: extract_eval string_eval upt_rec)
  from extract_code_elements_private_functions[of _ "''    def _hash(self, pw):''" _ _
      "[''class UserAuth:'', ''    def login(self):'', ''        pass'']"
      "[''        pass'', ''    def logout(self):'']"] a b
  have "extract_code_elements
       ([''class UserAuth:'', ''    def login(self):'', ''        pass'']
        @ ''    def _hash(self, pw):'' # [''        pass'', ''    def logout(self):''])
     = extract_code_elements
       ([''class UserAuth:'', ''    def login(self):'', ''        pass'']
        @ [] # [''        pass'', ''    def logout(self):''])"
    by blast
  then show ?thesis using a b c by simp
qed

section \<open>Properties of the file enumerator\<close>

lemma rglob_rel_nonempty: "rel \<in> set (rglob_rel n) \<Longrightarrow> rel \<noteq> []"
  by (cases n) auto

lemma rglob_under:
  "f \<in> set (rglob e d) \<Longrightarrow> absolute f = absolute d \<and> strict_prefix (parts d) (parts f)"
  by (auto simp: rglob_def strict_prefix_def split: sum.splits dest: rglob_rel_nonempty)

lemma is_file_not_dir: "is_file e f \<Longrightarrow> \<not> is_dir e f"
  by (auto simp: is_file_def is_dir_def split: sum.splits node.splits)

text \<open>Where no lookup raises: the list is empty for a root that is missing or not a
  directory, and holds regular files with a recognised suffix below the root.\<close>

lemma get_code_files_filtered:
  "(\<not> exists e d \<or> \<not> is_dir e d \<longrightarrow> get_code_files e d = [])
   \<and> (\<forall>f \<in> set (get_code_files e d).
         is_file e f \<and> \<not> is_dir e f \<and> suffix f \<in> set CODE_EXTENSIONS
         \<and> absolute f = absolute d \<and> strict_prefix (parts d) (parts f))"
  by (auto simp: get_code_files_def is_file_not_dir dest: rglob_under)

lemmas fs_eval =
  node_at_def exists_def is_dir_def is_file_def read_text_def rglob_def get_code_files_def
  suffix_def suffix_of_name_def name_def CODE_EXTENSIONS_def parse_path_def join_path_def
  split_on_def str_path_def relative_to_def resolve_target_dir_def


section \<open>Properties of the content window\<close>

text \<open>
  C10, as stated, fails for a negative \<open>num_lines\<close>: with three lines, \<open>start_line = 1\<close>
  and \<open>num_lines = -1\<close> the end index is \<open>-1\<close>, which the slice counts from the end, and
  the window holds two lines.
\<close>

theorem content_window_negative_count:
  "content_window [''a'', ''b'', ''c''] 1 (- 1) = (0, - 1, [''a'', ''b''])
   \<and> \<not> int (length [''a'', ''b'']) \<le> - 1"
  by (simp add: content_window_def slice_def slice_index_def)

text \<open>
  C10, amended. For \<open>num_lines \<ge> 0\<close> and any \<open>start_line\<close>, the window starts at index
  \<open>max(0, start_line - 1)\<close>, ends at \<open>min(len(lines), start + num_lines)\<close>, holds at most
  \<open>num_lines\<close> lines, and each of its lines is a line of the file at an index within the
  file.
\<close>

theorem content_window_in_range:
  assumes "0 \<le> num_lines"
  shows "content_window lines start_line num_lines =
           (max 0 (start_line - 1),
            min (int (length lines)) (max 0 (start_line - 1) + num_lines),
            take (nat (min (int (length lines)) (max 0 (start_line - 1) + num_lines)
                         - max 0 (start_line - 1)))
              (drop (nat (max 0 (start_line - 1))) lines))
         \<and> int (length (snd (snd (content_window lines start_line num_lines)))) \<le> num_lines
         \<and> (\<forall>k < length (snd (snd (content_window lines start_line num_lines))).
               nat (max 0 (start_line - 1)) + k < length lines
               \<and> snd (snd (content_window lines start_line num_lines)) ! k
                   = lines ! (nat (max 0 (start_line - 1)) + k))"
proof -
  define s where "s = max 0 (start_line - 1)"
  define e where "e = min (int (length lines)) (s + num_lines)"
  have s0: "0 \<le> s" by (simp add: s_def)
  have e0: "0 \<le> e" using s0 assms by (simp add: e_def)
  have si: "slice_index (length lines) s = min (length lines) (nat s)"
    using s0 by (simp add: slice_index_def)
  have ei: "slice_index (length lines) e = nat e"
    using e0 by (auto simp: slice_index_def e_def)
  have sl: "slice lines s e = take (nat (e - s)) (drop (nat s) lines)"
  proof (cases "nat s \<le> length lines")
    case True
    then show ?thesis using s0 e0 by (simp add: slice_def si ei min_def nat_diff_distrib')
  next
    case False
    then show ?thesis by (simp add: slice_def si ei)
  qed
  have w: "content_window lines start_line num_lines = (s, e, take (nat (e - s)) (drop (nat s) lines))"
    by (simp add: content_window_def Let_def s_def[symmetric] e_def[symmetric] sl)
  have len: "int (length (take (nat (e - s)) (drop (nat s) lines))) \<le> num_lines"
    using assms s0 by (auto simp: e_def)
  have idx: "\<forall>k < length (take (nat (e - s)) (drop (nat s) lines)).
               nat s + k < length lines
               \<and> take (nat (e - s)) (drop (nat s) lines) ! k = lines ! (nat s + k)"
    by auto
  have sel: "snd (snd (content_window lines start_line num_lines))
               = take (nat (e - s)) (drop (nat s) lines)"
    using w by simp
  have len': "int (length (snd (snd (content_window lines start_line num_lines)))) \<le> num_lines"
    unfolding sel by (rule len)
  have idx': "\<forall>k < length (snd (snd (content_window lines start_line num_lines))).
               nat s + k < length lines
               \<and> snd (snd (content_window lines start_line num_lines)) ! k = lines ! (nat s + k)"
    unfolding sel by (rule idx)
  from w[unfolded e_def s_def] len' idx'[unfolded s_def] show ?thesis by blast
qed

theorem content_window_in_range_witness:
  "(0::int) \<le> 2
   \<and> content_window [''a'', ''b'', ''c''] 0 2 = (0, 2, [''a'', ''b''])
   \<and> content_window [''a'', ''b'', ''c''] 3 2 = (2, 3, [''c''])
   \<and> content_window [''a'', ''b'', ''c''] 9 2 = (8, 3, [])
   \<and> int (length (snd (snd (content_window [''a'', ''b'', ''c''] 3 2)))) \<le> 2"
  using content_window_in_range[of 2 "[''a'', ''b'', ''c'']" 0]
    content_window_in_range[of 2 "[''a'', ''b'', ''c'']" 3]
    content_window_in_range[of 2 "[''a'', ''b'', ''c'']" 9]
  by simp

section \<open>A directory where a file is expected\<close>

text \<open>
  C8. In the example \<open>repos/app/src\<close> is a directory. \<open>explain_file\<close> answers that it is not
  a file; \<open>get_file_content\<close> has no such check and reading the directory raises
  \<open>IsADirectoryError\<close>.
\<close>

theorem get_file_content_on_directory:
  "resolve_target_dir example_env example_root (Some ''app'') None
     = Inr (Some (Path False [''repos'', ''app'']))
   \<and> is_dir example_env (join_path (Path False [''repos'', ''app'']) ''src'')
   \<and> explain_file example_env example_root ''src'' (Some ''app'') None
       = Inr ''src is not a file.''
   \<and> get_file_content example_env example_root ''src'' (Some ''app'') None 1 50
       = Inl IsADirectoryError"
  by (simp add: example_env_def example_root_def explain_file_def get_file_content_def fs_eval string_eval)

lemma directory_requested:
  assumes "resolve_target_dir e root repo_name folder_path = Inr (Some target_dir)"
    and "is_dir e (join_path target_dir file_path)"
  shows "explain_file e root file_path repo_name folder_path = Inr (file_path @ '' is not a file.'')"
    and "get_file_content e root file_path repo_name folder_path start_line num_lines = Inl IsADirectoryError"
  using assms
  by (auto simp: explain_file_def get_file_content_def Let_def exists_def is_dir_def is_file_def
      read_text_def split: sum.splits node.splits)

section \<open>The file enumerator and the errors of the operating system\<close>












lemma raised_calls:
  assumes "os_stat e p = Raised x"
  shows "exists_call e p = Inl x"
  using assms by (simp add: exists_call_def)














section \<open>Properties of the relevance ranker\<close>

lemma sorted_reverse_sorted:
  "sorted_wrt (\<lambda>a b. key a \<ge> key b) (sorted_reverse key xs)"
proof -
  have "sorted (map (\<lambda>x. - key x) (sort_key (\<lambda>x. - key x) xs))" by (rule sorted_sort_key)
  then show ?thesis by (simp add: sorted_reverse_def sorted_map)
qed

lemma sorted_reverse_stable:
  "filter (\<lambda>x. key x = k) (sorted_reverse key xs) = filter (\<lambda>x. key x = k) xs"
  using sort_key_stable[of "\<lambda>x. - key x" "- k" xs] by (simp add: sorted_reverse_def)

lemma set_sorted_reverse: "set (sorted_reverse key xs) = set xs"
  by (simp add: sorted_reverse_def)

lemma length_sorted_reverse: "length (sorted_reverse key xs) = length xs"
  by (simp add: sorted_reverse_def)

lemma filter_take_prefix: "prefix (filter P (take n xs)) (filter P xs)"
proof -
  have "filter P xs = filter P (take n xs) @ filter P (drop n xs)"
    by (metis append_take_drop_id filter_append)
  then show ?thesis by (simp add: prefix_def)
qed

lemma score_keywords_sum:
  assumes "read_text e f = Inr text"
  shows "score_keywords fuzzy e f rel tot ks = Inr (tot + spec_total_score fuzzy ks rel text)"
  using assms
  by (induction ks arbitrary: tot) (simp_all add: spec_total_score_def Let_def algebra_simps)

lemma is_file_read_text: "is_file e f \<Longrightarrow> read_text e f = Inr (text_of e f)"
  by (auto simp: is_file_def read_text_def text_of_def split: sum.splits node.splits)

lemma relative_to_under:
  "absolute f = absolute d \<Longrightarrow> prefix (parts d) (parts f) \<Longrightarrow>
   relative_to f d = Inr (Path False (drop (length (parts d)) (parts f)))"
  by (auto simp: relative_to_def prefix_def)

lemma score_files_list:
  assumes "\<forall>f \<in> set files. is_file e f \<and> absolute f = absolute d \<and> prefix (parts d) (parts f)"
  shows "score_files fuzzy e d kws scored files = Inr (scored @ scored_in_order fuzzy e d kws files)"
  using assms
proof (induction files arbitrary: scored)
  case Nil
  then show ?case by (simp add: scored_in_order_def)
next
  case (Cons f files)
  have rd: "read_text e f = Inr (text_of e f)" using Cons.prems by (simp add: is_file_read_text)
  have rel: "relative_to f d = Inr (Path False (drop (length (parts d)) (parts f)))"
    using Cons.prems by (simp add: relative_to_under)
  have kw: "score_keywords fuzzy e f (rel_path_of d f) 0 kws
              = Inr (spec_total_score fuzzy kws (rel_path_of d f) (text_of e f))"
    using score_keywords_sum[OF rd, of fuzzy "rel_path_of d f" 0 kws] by simp
  have ih: "\<And>sc. score_files fuzzy e d kws sc files = Inr (sc @ scored_in_order fuzzy e d kws files)"
    using Cons.IH Cons.prems by simp
  show ?case
    using rel kw by (simp add: ih rel_path_of_def[symmetric] scored_in_order_def Let_def)
qed

lemma get_code_files_ok:
  "\<forall>f \<in> set (get_code_files e d). is_file e f \<and> absolute f = absolute d \<and> prefix (parts d) (parts f)"
  by (auto simp: get_code_files_def rglob_def split: sum.splits)

lemma score_files_for_feature_eq:
  "score_files_for_feature fuzzy e (get_code_files e d) d kws
     = Inr (scored_in_order fuzzy e d kws (get_code_files e d))"
  using score_files_list[OF get_code_files_ok, of fuzzy e d kws "[]"]
  by (simp add: score_files_for_feature_def)

lemma recommend_files_ranked_eq:
  "recommend_files_ranked fuzzy e desc (get_code_files e d) d
     = Inr (take 5 (sorted_reverse fst
              (scored_in_order fuzzy e d (split (lower desc)) (get_code_files e d))))"
  by (simp add: recommend_files_ranked_def score_files_for_feature_eq)

lemma scored_in_order_positive: "x \<in> set (scored_in_order fuzzy e d kws files) \<Longrightarrow> 0 < fst x"
  by (auto simp: scored_in_order_def)

lemma score_paths_positive: "x \<in> set (score_paths fuzzy hl q ps) \<Longrightarrow> 0 < fst x"
  by (induction ps) (auto simp: Let_def split: if_splits)

lemma score_paths_order:
  "map (\<lambda>x. fst (snd x)) (score_paths fuzzy hl q ps)
     = filter (\<lambda>p. 0 < score_of (fuzzy (lower q) (lower p))) ps"
  by (induction ps) (auto simp: Let_def)

lemma score_paths_score:
  "x \<in> set (score_paths fuzzy hl q ps) \<Longrightarrow>
     fst x = score_of (fuzzy (lower q) (lower (fst (snd x)))) \<and> fst (snd x) \<in> set ps
     \<and> snd (snd x) = hl (fst (snd x)) q"
  by (induction ps) (auto simp: Let_def split: if_splits)



lemmas text_eval =
  lower_def lower_char_def upper_def upper_char_def upper_letters_def lower_letters_def
  split_def splitlines_def linebreaks_def str_int_def format_4d_def nl_def quote_def

lemma example_code_files:
  "get_code_files example_env (Path False [''repos'', ''app''])
     = [Path False [''repos'', ''app'', ''blob.py''],
        Path False [''repos'', ''app'', ''src'', ''Login.py'']]"
  by (simp add: example_env_def fs_eval string_eval)


lemma example_scored:
  "scored_in_order example_match example_env (Path False [''repos'', ''app''])
     [''user'', ''login'']
     [Path False [''repos'', ''app'', ''blob.py''],
      Path False [''repos'', ''app'', ''src'', ''Login.py'']]
   = [(7, ''src/Login.py'')]"
  by (simp add: scored_in_order_def spec_total_score_def rel_path_of_def text_of_def
      example_match_def example_env_def fs_eval string_eval text_eval)


text \<open>
  C5. The list of \<open>score_files_fuzzy\<close> is sorted by descending score, every score in it is
  positive, and the entries of any one score stand in the order of \<open>file_paths\<close>. The list
  that \<open>recommend_files\<close> formats is sorted by descending score, holds positive scores
  only, and its entries of any one score are the first of that score in enumeration order.
\<close>

theorem ranked_results_sorted_positive_stable:
  "sorted_wrt (\<lambda>a b. fst a \<ge> fst b) (score_files_fuzzy fuzzy hl q ps)
   \<and> (\<forall>x \<in> set (score_files_fuzzy fuzzy hl q ps). 0 < fst x)
   \<and> (\<forall>k. filter (\<lambda>x. fst x = k) (score_files_fuzzy fuzzy hl q ps)
            = filter (\<lambda>x. fst x = k) (score_paths fuzzy hl q ps))
   \<and> map (\<lambda>x. fst (snd x)) (score_paths fuzzy hl q ps)
       = filter (\<lambda>p. 0 < score_of (fuzzy (lower q) (lower p))) ps
   \<and> (\<exists>rs. recommend_files_ranked fuzzy e desc (get_code_files e d) d = Inr rs
         \<and> sorted_wrt (\<lambda>a b. fst a \<ge> fst b) rs
         \<and> (\<forall>x \<in> set rs. 0 < fst x)
         \<and> (\<forall>k. prefix (filter (\<lambda>x. fst x = k) rs)
                  (filter (\<lambda>x. fst x = k)
                     (scored_in_order fuzzy e d (split (lower desc)) (get_code_files e d)))))"
proof (intro conjI)
  show "sorted_wrt (\<lambda>a b. fst a \<ge> fst b) (score_files_fuzzy fuzzy hl q ps)"
    unfolding score_files_fuzzy_def by (rule sorted_reverse_sorted)
  show "\<forall>x \<in> set (score_files_fuzzy fuzzy hl q ps). 0 < fst x"
    unfolding score_files_fuzzy_def set_sorted_reverse using score_paths_positive by blast
  show "\<forall>k. filter (\<lambda>x. fst x = k) (score_files_fuzzy fuzzy hl q ps)
            = filter (\<lambda>x. fst x = k) (score_paths fuzzy hl q ps)"
    unfolding score_files_fuzzy_def by (simp add: sorted_reverse_stable)
  show "map (\<lambda>x. fst (snd x)) (score_paths fuzzy hl q ps)
       = filter (\<lambda>p. 0 < score_of (fuzzy (lower q) (lower p))) ps"
    by (rule score_paths_order)
  let ?scored = "scored_in_order fuzzy e d (split (lower desc)) (get_code_files e d)"
  let ?rs = "take 5 (sorted_reverse fst ?scored)"
  have a: "recommend_files_ranked fuzzy e desc (get_code_files e d) d = Inr ?rs"
    by (rule recommend_files_ranked_eq)
  have b: "sorted_wrt (\<lambda>a b. fst a \<ge> fst b) ?rs"
    using sorted_reverse_sorted[of fst ?scored] by (rule sorted_wrt_take)
  have c: "\<forall>x \<in> set ?rs. 0 < fst x"
  proof
    fix x assume "x \<in> set ?rs"
    then have "x \<in> set ?scored" using set_sorted_reverse by (metis in_set_takeD)
    then show "0 < fst x" by (rule scored_in_order_positive)
  qed
  have d: "\<forall>k. prefix (filter (\<lambda>x. fst x = k) ?rs) (filter (\<lambda>x. fst x = k) ?scored)"
  proof
    fix k
    have "prefix (filter (\<lambda>x. fst x = k) ?rs) (filter (\<lambda>x. fst x = k) (sorted_reverse fst ?scored))"
      by (rule filter_take_prefix)
    then show "prefix (filter (\<lambda>x. fst x = k) ?rs) (filter (\<lambda>x. fst x = k) ?scored)"
      by (simp add: sorted_reverse_stable)
  qed
  from a b c d
  show "\<exists>rs. recommend_files_ranked fuzzy e desc (get_code_files e d) d = Inr rs
         \<and> sorted_wrt (\<lambda>a b. fst a \<ge> fst b) rs
         \<and> (\<forall>x \<in> set rs. 0 < fst x)
         \<and> (\<forall>k. prefix (filter (\<lambda>x. fst x = k) rs) (filter (\<lambda>x. fst x = k) ?scored))"
    by blast
qed

lemma example_score_paths:
  "score_paths example_match example_highlight ''AUTH''
      [''auth/login.py'', ''utils/math.py'', ''Auth/signup.py'']
   = [(1, ''auth/login.py'', ''auth/login.py''), (1, ''Auth/signup.py'', ''Auth/signup.py'')]"
  by (simp add: example_match_def example_highlight_def text_eval)

theorem ranked_results_sorted_positive_stable_witness:
  "score_files_fuzzy example_match example_highlight ''AUTH''
      [''auth/login.py'', ''utils/math.py'', ''Auth/signup.py'']
   = [(1, ''auth/login.py'', ''auth/login.py''), (1, ''Auth/signup.py'', ''Auth/signup.py'')]
   \<and> filter (\<lambda>x. fst x = 1)
        (score_files_fuzzy example_match example_highlight ''AUTH''
           [''auth/login.py'', ''utils/math.py'', ''Auth/signup.py''])
     = filter (\<lambda>x. fst x = 1)
        (score_paths example_match example_highlight ''AUTH''
           [''auth/login.py'', ''utils/math.py'', ''Auth/signup.py''])
   \<and> recommend_files_ranked example_match example_env ''User LOGIN''
         (get_code_files example_env (Path False [''repos'', ''app'']))
         (Path False [''repos'', ''app''])
       = Inr [(7, ''src/Login.py'')]"
proof -
  have ev: "score_files_fuzzy example_match example_highlight ''AUTH''
      [''auth/login.py'', ''utils/math.py'', ''Auth/signup.py'']
   = [(1, ''auth/login.py'', ''auth/login.py''), (1, ''Auth/signup.py'', ''Auth/signup.py'')]"
    by (simp only: score_files_fuzzy_def example_score_paths) (simp add: sorted_reverse_def)
  have rk: "recommend_files_ranked example_match example_env ''User LOGIN''
         (get_code_files example_env (Path False [''repos'', ''app'']))
         (Path False [''repos'', ''app'']) = Inr [(7, ''src/Login.py'')]"
    using recommend_files_ranked_eq[of example_match example_env "''User LOGIN''"
        "Path False [''repos'', ''app'']"]
    by (simp add: example_code_files example_scored sorted_reverse_def text_eval string_eval)
  from ranked_results_sorted_positive_stable[of example_match example_highlight "''AUTH''"
      "[''auth/login.py'', ''utils/math.py'', ''Auth/signup.py'']" example_env "''User LOGIN''"
      "Path False [''repos'', ''app'']"]
  have "filter (\<lambda>x. fst x = 1)
        (score_files_fuzzy example_match example_highlight ''AUTH''
           [''auth/login.py'', ''utils/math.py'', ''Auth/signup.py''])
     = filter (\<lambda>x. fst x = 1)
        (score_paths example_match example_highlight ''AUTH''
           [''auth/login.py'', ''utils/math.py'', ''Auth/signup.py''])"
    by blast
  with ev rk show ?thesis by blast
qed

end
